theory Spec2Isabelle
  imports Main "HOL-Library.Multiset"
begin

section \<open>Python values, types and exceptions\<close>

text \<open>
  The leaf values that reach the synthesis classes: strings, integers, booleans and
  \<open>None\<close> (Ansible task arguments keep the YAML scalars). \<open>type_of\<close> is Python's
  \<open>type(x)\<close> and \<open>py_str\<close> is \<open>str(x)\<close>.
\<close>

datatype pyval = PStr string | PInt int | PBool bool | PNone

datatype pytype = TStr | TInt | TBool | TNoneType

datatype py_error =
  TypeError | ValueError | KeyError | IndexError | AttributeError | MatchingException
  | OperationalError

fun type_of :: "pyval \<Rightarrow> pytype" where
  "type_of (PStr s) = TStr"
| "type_of (PInt i) = TInt"
| "type_of (PBool b) = TBool"
| "type_of PNone = TNoneType"

definition digit_char :: "nat \<Rightarrow> char" where
  "digit_char d = char_of (48 + d)"

fun str_of_nat :: "nat \<Rightarrow> string" where
  "str_of_nat n =
     (if n < 10 then [digit_char n] else str_of_nat (n div 10) @ [digit_char (n mod 10)])"

declare str_of_nat.simps [simp del]

fun py_str :: "pyval \<Rightarrow> string" where
  "py_str (PStr s) = s"
| "py_str (PInt i) = (if i < 0 then CHR ''-'' # str_of_nat (nat (- i)) else str_of_nat (nat i))"
| "py_str (PBool b) = (if b then ''True'' else ''False'')"
| "py_str PNone = ''None''"

section \<open>Configuration task arguments\<close>

text \<open>
  \<open>_identity\<close> and \<open>_undo_path_replacement\<close> (\<open>value.replace('/', '.')\<close>).
\<close>

definition identity_transformer :: "string \<Rightarrow> string" where
  "identity_transformer v = v"

definition undo_path_replacement :: "string \<Rightarrow> string" where
  "undo_path_replacement v = map (\<lambda>c. if c = CHR ''/'' then CHR ''.'' else c) v"

text \<open>
  The dataclass \<open>ConfigurationTaskArgument\<close>. Its generated \<open>__eq__\<close> and \<open>__hash__\<close>
  use \<open>value\<close>, \<open>original_type\<close> and \<open>original_value\<close>; \<open>transformer\<close> and
  \<open>pre_transform_value\<close> are declared with \<open>compare=False\<close>. \<open>arg_eq\<close> is that
  \<open>==\<close>, and \<open>arg_key\<close> the tuple it compares.
\<close>

record ConfigurationTaskArgument =
  arg_value :: string
  arg_original_type :: pytype
  arg_original_value :: pyval
  arg_transformer :: "string \<Rightarrow> string"
  arg_pre_transform_value :: "string option"

type_synonym arg = ConfigurationTaskArgument

definition ConfigurationTaskArgument_init ::
    "pyval \<Rightarrow> (string \<Rightarrow> string) \<Rightarrow> string option \<Rightarrow> arg" where
  "ConfigurationTaskArgument_init ov tr pre =
     \<lparr>arg_value = py_str ov, arg_original_type = type_of ov, arg_original_value = ov,
      arg_transformer = tr, arg_pre_transform_value = pre\<rparr>"

definition Argument :: "pyval \<Rightarrow> arg" where
  "Argument ov = ConfigurationTaskArgument_init ov identity_transformer None"

datatype arg_key = ArgKey string pytype pyval

definition arg_key :: "arg \<Rightarrow> arg_key" where
  "arg_key a = ArgKey (arg_value a) (arg_original_type a) (arg_original_value a)"

definition arg_eq :: "arg \<Rightarrow> arg \<Rightarrow> bool" where
  "arg_eq a b \<longleftrightarrow>
     arg_value a = arg_value b \<and> arg_original_type a = arg_original_type b
     \<and> arg_original_value a = arg_original_value b"

section \<open>Dictionaries and sets keyed by arguments\<close>

text \<open>
  A Python \<open>dict\<close> keeps its items in insertion order and compares keys with \<open>==\<close>:
  an association list, read with \<open>dict_get\<close> (\<open>d.get(k)\<close>) and written with
  \<open>dict_set\<close> (\<open>d[k] = v\<close>: an equal key keeps its place and its key object, a new key
  goes to the end). A Python \<open>set\<close> is a list of its elements in iteration order;
  \<open>set_add\<close> is \<open>s.add(x)\<close> for the equality \<open>eq\<close> of the element class.
\<close>

fun dict_get :: "(arg \<times> 'v) list \<Rightarrow> arg \<Rightarrow> 'v option" where
  "dict_get [] k = None"
| "dict_get ((k', v) # d) k = (if arg_eq k' k then Some v else dict_get d k)"

fun dict_set :: "(arg \<times> 'v) list \<Rightarrow> arg \<Rightarrow> 'v \<Rightarrow> (arg \<times> 'v) list" where
  "dict_set [] k v = [(k, v)]"
| "dict_set ((k', v') # d) k v =
     (if arg_eq k' k then (k', v) # d else (k', v') # dict_set d k v)"

definition set_contains :: "('a \<Rightarrow> 'a \<Rightarrow> bool) \<Rightarrow> 'a list \<Rightarrow> 'a \<Rightarrow> bool" where
  "set_contains eq xs x \<longleftrightarrow> list_ex (\<lambda>y. eq y x) xs"

definition set_add :: "('a \<Rightarrow> 'a \<Rightarrow> bool) \<Rightarrow> 'a list \<Rightarrow> 'a \<Rightarrow> 'a list" where
  "set_add eq xs x = (if set_contains eq xs x then xs else xs @ [x])"

text \<open>\<open>dict.__eq__\<close>: the same number of items, and every key of the one is a key of
  the other with an equal value.\<close>

definition dict_eq :: "(arg \<times> arg) list \<Rightarrow> (arg \<times> arg) list \<Rightarrow> bool" where
  "dict_eq d d' \<longleftrightarrow>
     length d = length d'
     \<and> list_all (\<lambda>(k, v). case dict_get d' k of None \<Rightarrow> False | Some v' \<Rightarrow> arg_eq v v') d"

section \<open>Argument mappings\<close>

record ConfigurationTaskArgumentMapping =
  source_arguments :: "(arg \<times> arg) list"
  target_arguments :: "(arg \<times> arg) list"

type_synonym mapping = ConfigurationTaskArgumentMapping

definition empty_mapping :: mapping where
  "empty_mapping = \<lparr>source_arguments = [], target_arguments = []\<rparr>"

text \<open>\<open>add_pair\<close> raises before it writes, so a failed call leaves the mapping as it was.\<close>

definition add_pair :: "mapping \<Rightarrow> arg \<times> arg \<Rightarrow> py_error + mapping" where
  "add_pair m pair =
     (case pair of (a, b) \<Rightarrow>
        let a_map = dict_get (source_arguments m) a;
            b_map = dict_get (target_arguments m) b
        in if (case a_map of None \<Rightarrow> False | Some x \<Rightarrow> \<not> arg_eq x b)
              \<or> (case b_map of None \<Rightarrow> False | Some y \<Rightarrow> \<not> arg_eq y a)
           then Inl MatchingException
           else Inr \<lparr>source_arguments = dict_set (source_arguments m) a b,
                     target_arguments = dict_set (target_arguments m) b a\<rparr>)"

text \<open>The loop \<open>for pair in mapping: self.add_pair(pair)\<close> of \<open>__init__\<close>.\<close>

fun add_pairs :: "mapping \<Rightarrow> (arg \<times> arg) list \<Rightarrow> py_error + mapping" where
  "add_pairs m [] = Inr m"
| "add_pairs m (p # ps) =
     (case add_pair m p of Inl e \<Rightarrow> Inl e | Inr m' \<Rightarrow> add_pairs m' ps)"

definition ConfigurationTaskArgumentMapping_init :: "(arg \<times> arg) list \<Rightarrow> py_error + mapping" where
  "ConfigurationTaskArgumentMapping_init pairs = add_pairs empty_mapping pairs"

definition mapping_eq :: "mapping \<Rightarrow> mapping \<Rightarrow> bool" where
  "mapping_eq m m' \<longleftrightarrow>
     dict_eq (source_arguments m) (source_arguments m')
     \<and> dict_eq (target_arguments m) (target_arguments m')"

definition invert :: "mapping \<Rightarrow> py_error + mapping" where
  "invert m =
     ConfigurationTaskArgumentMapping_init (map (\<lambda>(a, b). (b, a)) (source_arguments m))"

definition merge :: "mapping \<Rightarrow> mapping \<Rightarrow> py_error + mapping" where
  "merge m other =
     ConfigurationTaskArgumentMapping_init (source_arguments m @ source_arguments other)"




definition kproj :: "(arg \<times> arg) list \<Rightarrow> (arg_key \<times> arg_key) list" where
  "kproj d = map (\<lambda>(a, b). (arg_key a, arg_key b)) d"

definition pairs :: "mapping \<Rightarrow> (arg_key \<times> arg_key) set" where
  "pairs m = set (kproj (source_arguments m))"









text \<open>A mapping up to \<open>==\<close> of its arguments: the items of its two dictionaries, each
  argument replaced by the tuple that \<open>__eq__\<close> compares.\<close>

definition mapping_keys ::
    "mapping \<Rightarrow> (arg_key \<times> arg_key) list \<times> (arg_key \<times> arg_key) list" where
  "mapping_keys m = (kproj (source_arguments m), kproj (target_arguments m))"

section \<open>Strings\<close>

text \<open>\<open>s.startswith(p)\<close>, \<open>sub in s\<close> and \<open>s.partition(sep)\<close> for a non-empty \<open>sep\<close> (the
  only use leaves an empty separator out).\<close>

fun startswith :: "string \<Rightarrow> string \<Rightarrow> bool" where
  "startswith s [] = True"
| "startswith [] (p # ps) = False"
| "startswith (c # cs) (p # ps) = (c = p \<and> startswith cs ps)"

fun contains :: "string \<Rightarrow> string \<Rightarrow> bool" where
  "contains [] sub = (sub = [])"
| "contains (c # cs) sub = (startswith (c # cs) sub \<or> contains cs sub)"

fun partition_str :: "string \<Rightarrow> string \<Rightarrow> string \<times> string \<times> string" where
  "partition_str sep [] = ([], [], [])"
| "partition_str sep (c # cs) =
     (if startswith (c # cs) sep then ([], sep, drop (length sep) (c # cs))
      else case partition_str sep cs of (bef, s, aft) \<Rightarrow> (c # bef, s, aft))"

definition replace_char :: "char \<Rightarrow> char \<Rightarrow> string \<Rightarrow> string" where
  "replace_char old new s = map (\<lambda>c. if c = old then new else c) s"

section \<open>Synthetic values\<close>

text \<open>
  A part of a synthetic value is a literal string or an argument. The model covers the
  synthetic values that wrap a Python \<open>str\<close>, as every field of a configuration change
  does: \<open>original_type\<close> is \<open>str\<close>, and \<open>str(original_value)\<close> and
  \<open>original_type(...)\<close> are the identity. Arguments keep any leaf value. The frozenset
  \<open>arguments\<close> is the list of its elements.
\<close>

datatype part = Lit string | ArgPart arg

record SyntheticValue =
  sv_original_value :: string
  sv_arguments :: "arg list"
  sv_parts :: "part list"

fun part_str :: "part \<Rightarrow> string" where
  "part_str (Lit s) = s"
| "part_str (ArgPart a) = arg_value a"

text \<open>\<open>bool(p)\<close> of a part: an empty literal is false, an argument object is true.\<close>

fun truthy :: "part \<Rightarrow> bool" where
  "truthy (Lit s) = (s \<noteq> [])"
| "truthy (ArgPart a) = True"

lemma partition_str_length:
  "partition_str sep s = (bef, m, aft) \<Longrightarrow> m \<noteq> [] \<Longrightarrow> length aft < length s"
proof (induction s arbitrary: bef)
  case Nil
  then show ?case by simp
next
  case (Cons c cs)
  show ?case
  proof (cases "startswith (c # cs) sep")
    case True
    with Cons.prems show ?thesis by auto
  next
    case False
    with Cons.prems obtain b where "partition_str sep cs = (b, m, aft)"
      by (auto split: prod.splits)
    from Cons.IH[OF this Cons.prems(2)] show ?thesis by simp
  qed
qed

text \<open>
  The inner loop of \<open>__init__\<close> on one literal part: \<open>before\<close>, then the argument and
  the next \<open>before\<close> for as long as \<open>partition\<close> finds the argument's value.
\<close>

function split_literal :: "arg \<Rightarrow> string \<Rightarrow> part list" where
  "split_literal a s =
     (case partition_str (arg_value a) s of
        (bef, sep, aft) \<Rightarrow>
          if sep = [] then [Lit bef]
          else Lit bef # ArgPart a # split_literal a aft)"
  by pat_completeness auto
termination
  by (relation "measure (\<lambda>(a, s). length s)") (auto dest: partition_str_length[OF sym])

declare split_literal.simps [simp del]

fun split_part :: "arg \<Rightarrow> part \<Rightarrow> part list" where
  "split_part a (ArgPart p) = [ArgPart p]"
| "split_part a (Lit s) = split_literal a s"

text \<open>One round of the outer loop: an argument with an empty value is skipped, and
  \<open>filter(lambda p: p, new_parts)\<close> keeps the parts that are true.\<close>

definition punch :: "arg \<Rightarrow> part list \<Rightarrow> part list" where
  "punch a parts =
     (if arg_value a = [] then parts
      else filter truthy (concat (map (split_part a) parts)))"

text \<open>
  The candidate arguments: the pool, an argument for each version number found in the
  value, and the slashed form of every dotted string argument that occurs in the value.
  \<open>VERSION_REGEX.findall(ov_str)\<close> is computed by Python's \<open>re\<close> library; its result
  enters as the function \<open>versions\<close>, of which nothing is assumed.
\<close>

definition path_replacements :: "string \<Rightarrow> arg list \<Rightarrow> arg list" where
  "path_replacements ov_str arguments =
     fold (\<lambda>arg new_args.
             case arg_original_value arg of
               PStr v \<Rightarrow>
                 if CHR ''.'' \<in> set v
                 then (let replacement = replace_char CHR ''.'' CHR ''/'' v
                       in if contains ov_str replacement
                          then set_add arg_eq new_args
                                 (ConfigurationTaskArgument_init (PStr replacement)
                                    undo_path_replacement (Some v))
                          else new_args)
                 else new_args
             | _ \<Rightarrow> new_args)
          arguments []"

definition candidate_arguments :: "(string \<Rightarrow> string list) \<Rightarrow> string \<Rightarrow> arg list \<Rightarrow> arg list" where
  "candidate_arguments versions ov_str pool =
     (let arguments = fold (\<lambda>a s. set_add arg_eq s a) pool [];
          arguments = fold (\<lambda>version s. set_add arg_eq s (Argument (PStr version)))
                        (versions ov_str) arguments;
          new_args = path_replacements ov_str arguments
      in fold (\<lambda>a s. set_add arg_eq s a) new_args arguments)"

text \<open>\<open>sorted(arguments, key=lambda a: len(a.value), reverse=True)\<close>: a stable sort,
  the longest values first.\<close>

definition sorted_by_length :: "arg list \<Rightarrow> arg list" where
  "sorted_by_length arguments = sort_key (\<lambda>a. - int (length (arg_value a))) arguments"

definition decompose :: "string \<Rightarrow> arg list \<Rightarrow> part list" where
  "decompose ov_str arguments =
     fold punch arguments (if ov_str \<noteq> [] then [Lit ov_str] else [])"

definition used_arguments :: "part list \<Rightarrow> arg list" where
  "used_arguments parts =
     fold (\<lambda>p s. case p of ArgPart a \<Rightarrow> set_add arg_eq s a | Lit l \<Rightarrow> s) parts []"

definition SyntheticValue_init ::
    "(string \<Rightarrow> string list) \<Rightarrow> string \<Rightarrow> arg list \<Rightarrow> SyntheticValue" where
  "SyntheticValue_init versions original_value arguments =
     (let parts = decompose original_value
                    (sorted_by_length (candidate_arguments versions original_value arguments))
      in \<lparr>sv_original_value = original_value,
          sv_arguments = used_arguments parts,
          sv_parts = parts\<rparr>)"

text \<open>
  \<open>from_mapping\<close>: the arguments of the parts are looked up in the mapping
  (\<open>source_arguments.get(part, part)\<close>), and the new original value is
  \<open>''.join\<close> of the literals and of the arguments' \<open>original_value\<close>, which raises
  \<open>TypeError\<close> on an original value that is not a string.
\<close>

fun join_parts :: "part list \<Rightarrow> py_error + string" where
  "join_parts [] = Inr []"
| "join_parts (Lit s # ps) =
     (case join_parts ps of Inl e \<Rightarrow> Inl e | Inr r \<Rightarrow> Inr (s @ r))"
| "join_parts (ArgPart a # ps) =
     (case arg_original_value a of
        PStr s \<Rightarrow> (case join_parts ps of Inl e \<Rightarrow> Inl e | Inr r \<Rightarrow> Inr (s @ r))
      | _ \<Rightarrow> Inl TypeError)"

definition map_part :: "mapping \<Rightarrow> part \<Rightarrow> part" where
  "map_part m p =
     (case p of
        ArgPart a \<Rightarrow> ArgPart (case dict_get (source_arguments m) a of Some b \<Rightarrow> b | None \<Rightarrow> a)
      | Lit s \<Rightarrow> Lit s)"

definition from_mapping :: "SyntheticValue \<Rightarrow> mapping \<Rightarrow> py_error + SyntheticValue" where
  "from_mapping v m =
     (let parts = map (map_part m) (sv_parts v);
          arguments = used_arguments parts
      in case join_parts parts of
           Inl e \<Rightarrow> Inl e
         | Inr original_value \<Rightarrow>
             Inr \<lparr>sv_original_value = original_value, sv_arguments = arguments,
                  sv_parts = parts\<rparr>)"

text \<open>The generated \<open>__eq__\<close> of the dataclass: the original values, the argument sets
  and the part tuples are equal.\<close>

fun part_eq :: "part \<Rightarrow> part \<Rightarrow> bool" where
  "part_eq (Lit s) (Lit t) = (s = t)"
| "part_eq (ArgPart a) (ArgPart b) = arg_eq a b"
| "part_eq (Lit s) (ArgPart b) = False"
| "part_eq (ArgPart a) (Lit t) = False"

definition frozenset_eq :: "arg list \<Rightarrow> arg list \<Rightarrow> bool" where
  "frozenset_eq xs ys \<longleftrightarrow>
     list_all (set_contains arg_eq ys) xs \<and> list_all (set_contains arg_eq xs) ys"

definition sv_eq :: "SyntheticValue \<Rightarrow> SyntheticValue \<Rightarrow> bool" where
  "sv_eq v w \<longleftrightarrow>
     sv_original_value v = sv_original_value w
     \<and> frozenset_eq (sv_arguments v) (sv_arguments w)
     \<and> list_all2 part_eq (sv_parts v) (sv_parts w)"

section \<open>Mapping a synthetic value to a primitive\<close>

text \<open>
  \<open>self_sequence\<close> flattens the parts: a literal gives its characters, an argument
  itself. A search state is \<open>(self_idx, other_idx, mapping)\<close>.
\<close>

datatype token = TChr char | TArg arg

definition self_sequence :: "part list \<Rightarrow> token list" where
  "self_sequence parts =
     concat (map (\<lambda>p. case p of Lit s \<Rightarrow> map TChr s | ArgPart a \<Rightarrow> [TArg a]) parts)"

type_synonym state = "nat \<times> nat \<times> mapping"

fun is_arg :: "token \<Rightarrow> bool" where
  "is_arg (TArg a) = True"
| "is_arg (TChr c) = False"

text \<open>\<open>token == character\<close>: an argument equals no character.\<close>

fun token_eq_char :: "token \<Rightarrow> char \<Rightarrow> bool" where
  "token_eq_char (TChr c) d = (c = d)"
| "token_eq_char (TArg a) d = False"

text \<open>The lockstep advance over equal characters.\<close>

function advance :: "token list \<Rightarrow> string \<Rightarrow> nat \<Rightarrow> nat \<Rightarrow> nat \<times> nat" where
  "advance seq other self_idx other_idx =
     (if self_idx < length seq \<and> other_idx < length other
         \<and> token_eq_char (seq ! self_idx) (other ! other_idx)
      then advance seq other (Suc self_idx) (Suc other_idx)
      else (self_idx, other_idx))"
  by pat_completeness auto
termination
  by (relation "measure (\<lambda>(seq, other, i, j). length seq - i)") auto

declare advance.simps [simp del]

text \<open>\<open>other_sequence.rindex(c, start)\<close>: the last index from \<open>start\<close> on that holds
  \<open>c\<close>, or \<open>ValueError\<close> (here \<open>None\<close>).\<close>

definition rindex :: "string \<Rightarrow> char \<Rightarrow> nat \<Rightarrow> nat option" where
  "rindex other c start =
     (case filter (\<lambda>k. other ! k = c) (rev [start..<length other]) of
        [] \<Rightarrow> None
      | k # ks \<Rightarrow> Some k)"

text \<open>The first index from \<open>next_idx\<close> on that holds no argument.\<close>

function skip_arguments :: "token list \<Rightarrow> nat \<Rightarrow> nat" where
  "skip_arguments seq next_idx =
     (if next_idx < length seq \<and> is_arg (seq ! next_idx)
      then skip_arguments seq (Suc next_idx) else next_idx)"
  by pat_completeness auto
termination
  by (relation "measure (\<lambda>(seq, i). length seq - i)") auto

declare skip_arguments.simps [simp del]

text \<open>
  The candidate ends of the span of the argument at \<open>self_idx\<close>; \<open>None\<close> is the
  \<open>continue\<close> after \<open>rindex\<close> found no place for the next literal character.
\<close>

definition indices :: "token list \<Rightarrow> string \<Rightarrow> nat \<Rightarrow> nat \<Rightarrow> nat list option" where
  "indices seq other self_idx other_idx =
     (if self_idx + 1 = length seq then Some [length other]
      else if is_arg (seq ! (self_idx + 1)) then
        (let next_idx = skip_arguments seq (self_idx + 1)
         in if next_idx < length seq then
              (case seq ! next_idx of
                 TChr c \<Rightarrow>
                   (case rindex other c other_idx of
                      None \<Rightarrow> None
                    | Some k \<Rightarrow> Some [other_idx..<1 + k])
               | TArg a \<Rightarrow> Some [other_idx..<length other + 1])
            else Some [other_idx..<length other + 1])
      else Some (filter (\<lambda>k. token_eq_char (seq ! (self_idx + 1)) (other ! k))
                   [other_idx..<length other]))"

text \<open>The states pushed for the candidate ends: the argument is bound to the span, and
  a binding that conflicts with the mapping is left out.\<close>

definition push_states :: "string \<Rightarrow> nat \<Rightarrow> nat \<Rightarrow> mapping \<Rightarrow> arg \<Rightarrow> nat list \<Rightarrow> state list" where
  "push_states other self_idx other_idx mapping arg idxs =
     concat (map (\<lambda>idx.
        case ConfigurationTaskArgumentMapping_init
               [(arg, Argument (PStr (take (idx - other_idx) (drop other_idx other))))] of
          Inl e \<Rightarrow> []
        | Inr single \<Rightarrow>
            (case merge mapping single of
               Inl e \<Rightarrow> []
             | Inr merged \<Rightarrow> [(self_idx + 1, idx, merged)])) idxs)"

text \<open>
  One turn of the \<open>while states\<close> loop on the popped state: the mapping to add to the
  result, if any, and the states to push, in the order of the pushes.
\<close>

definition explore ::
    "token list \<Rightarrow> string \<Rightarrow> state \<Rightarrow> py_error + (mapping option \<times> state list)" where
  "explore seq other st =
     (case st of (self_idx0, other_idx0, mapping) \<Rightarrow>
      (case advance seq other self_idx0 other_idx0 of (self_idx, other_idx) \<Rightarrow>
         if self_idx = length seq \<and> other_idx = length other then Inr (Some mapping, [])
         else if self_idx = length seq \<or> other_idx = length other then Inr (None, [])
         else if length seq < self_idx then Inl IndexError
         else
           (case seq ! self_idx of
              TChr c \<Rightarrow> Inr (None, [])
            | TArg arg \<Rightarrow>
                (case dict_get (source_arguments mapping) arg of
                   Some mapped \<Rightarrow>
                     (let other_value = take (length (arg_value mapped)) (drop other_idx other)
                      in if arg_value mapped = other_value
                         then Inr (None, [(self_idx + 1,
                                           other_idx + length (arg_value mapped), mapping)])
                         else Inr (None, []))
                 | None \<Rightarrow>
                     (case indices seq other self_idx other_idx of
                        None \<Rightarrow> Inr (None, [])
                      | Some idxs \<Rightarrow>
                          Inr (None, push_states other self_idx other_idx mapping arg idxs))))))"

lemma advance_ge: "advance seq other i j = (i', j') \<Longrightarrow> i \<le> i'"
proof (induction seq other i j rule: advance.induct)
  case (1 seq other self_idx other_idx)
  show ?case
  proof (cases "self_idx < length seq \<and> other_idx < length other
         \<and> token_eq_char (seq ! self_idx) (other ! other_idx)")
    case True
    with "1.prems" have "advance seq other (Suc self_idx) (Suc other_idx) = (i', j')"
      by (subst (asm) advance.simps) simp
    with "1.IH"[OF True] show ?thesis by simp
  next
    case False
    with "1.prems" show ?thesis by (subst (asm) advance.simps) auto
  qed
qed

lemma push_states_idx:
  "(i, j, m') \<in> set (push_states other self_idx other_idx mapping arg idxs) \<Longrightarrow> i = self_idx + 1"
  by (auto simp: push_states_def split: sum.splits)

lemma explore_pushed:
  assumes "explore seq other (i0, j0, m) = Inr (found, pushed)" "(i, j, m') \<in> set pushed"
  shows "length seq - i < length seq - i0"
proof -
  obtain i1 j1 where adv: "advance seq other i0 j0 = (i1, j1)" by (cases "advance seq other i0 j0")
  from advance_ge[OF adv] have ge: "i0 \<le> i1" .
  from assms adv have "i = i1 + 1 \<and> i1 < length seq"
    by (auto simp: explore_def Let_def split: if_splits token.splits option.splits
        dest: push_states_idx)
  with ge show ?thesis by arith
qed

text \<open>
  The loop \<open>while states\<close>. The head of the list is the top of the stack: \<open>pop()\<close>
  takes it, and the pushes of one turn land on it in their order, the last one on top.
  Every pushed state stands further right in \<open>self_sequence\<close> than the popped one, so the
  loop ends.
\<close>

function search ::
    "token list \<Rightarrow> string \<Rightarrow> state list \<Rightarrow> mapping list \<Rightarrow> py_error + mapping list" where
  "search seq other [] mappings = Inr mappings"
| "search seq other (st # states) mappings =
     (case explore seq other st of
        Inl e \<Rightarrow> Inl e
      | Inr (found, pushed) \<Rightarrow>
          search seq other (rev pushed @ states)
            (case found of None \<Rightarrow> mappings | Some m \<Rightarrow> set_add mapping_eq mappings m))"
  by pat_completeness auto
termination
proof (relation "inv_image (mult less_than)
    (\<lambda>(seq, other, states, ms). mset (map (\<lambda>(i, j, m). length seq - i) states))")
  show "wf (inv_image (mult less_than)
    (\<lambda>(seq, other, states, ms). mset (map (\<lambda>(i, j, m). length (seq :: token list) - i)
        (states :: state list))))"
    by (intro wf_inv_image wf_mult wf_less_than)
next
  fix seq :: "token list" and other :: string and st :: state and states :: "state list"
    and mappings :: "mapping list" and x2 found pushed
  assume ex: "explore seq other st = Inr x2" and x2: "(found, pushed) = x2"
  obtain i0 j0 m where st: "st = (i0, j0, m)" by (cases st)
  let ?f = "\<lambda>(i, j, m). length seq - i"
  have "(mset (map ?f states) + mset (map ?f pushed),
         mset (map ?f states) + {#length seq - i0#}) \<in> mult less_than"
  proof (rule one_step_implies_mult)
    show "{#length seq - i0#} \<noteq> {#}" by simp
    show "\<forall>k\<in>#mset (map ?f pushed). \<exists>j\<in>#{#length seq - i0#}. (k, j) \<in> less_than"
      using explore_pushed[of seq other i0 j0 m found pushed] ex x2 st by auto
  qed
  then show "((seq, other, rev pushed @ states,
        case found of None \<Rightarrow> mappings | Some m \<Rightarrow> set_add mapping_eq mappings m),
       (seq, other, st # states, mappings))
      \<in> inv_image (mult less_than)
          (\<lambda>(seq, other, states, ms). mset (map (\<lambda>(i, j, m). length seq - i) states))"
    by (simp add: st add.commute)
qed

declare search.simps [simp del]

definition map_to_primitive :: "SyntheticValue \<Rightarrow> pyval \<Rightarrow> py_error + mapping list" where
  "map_to_primitive v other =
     (case other of
        PStr other_sequence \<Rightarrow>
          if sv_original_value v = other_sequence then
            (case ConfigurationTaskArgumentMapping_init (map (\<lambda>a. (a, a)) (sv_arguments v)) of
               Inl e \<Rightarrow> Inl e
             | Inr m \<Rightarrow> Inr [m])
          else if length (sv_arguments v) = 0 then Inr []
          else search (self_sequence (sv_parts v)) other_sequence [(0, 0, empty_mapping)] []
      | _ \<Rightarrow> Inl ValueError)"

text \<open>The structural invariant of the parts: no literal stands next to a literal.\<close>

fun is_lit :: "part \<Rightarrow> bool" where
  "is_lit (Lit s) = True"
| "is_lit (ArgPart a) = False"

fun no_adjacent_literals :: "part list \<Rightarrow> bool" where
  "no_adjacent_literals (p # q # ps) =
     (\<not> (is_lit p \<and> is_lit q) \<and> no_adjacent_literals (q # ps))"
| "no_adjacent_literals [p] = True"
| "no_adjacent_literals [] = True"

text \<open>A part up to \<open>==\<close>: a literal, or the compared tuple of an argument.\<close>

fun part_key :: "part \<Rightarrow> string + arg_key" where
  "part_key (Lit s) = Inl s"
| "part_key (ArgPart a) = Inr (arg_key a)"

section \<open>Configuration changes\<close>

text \<open>
  The dataclasses of the changes, one constructor for each class, and \<open>class_of\<close> for
  \<open>type(change)\<close>. \<open>change_eq\<close> is the generated \<open>__eq__\<close>: the same class and equal
  fields.
\<close>

datatype FileContentChangeType = ADDITION | DELETION

datatype FileContentChange = FileContentChange FileContentChangeType SyntheticValue

datatype ConfigurationChange =
    DirectoryAdd SyntheticValue
  | DirectoryDelete SyntheticValue
  | EnvSet SyntheticValue SyntheticValue
  | EnvUnset SyntheticValue
  | FileAdd SyntheticValue
  | FileDelete SyntheticValue
  | FileChange SyntheticValue "FileContentChange list"
  | ServiceStart SyntheticValue
  | ServiceStop SyntheticValue
  | SymbolicLink SyntheticValue SyntheticValue
  | WorkingDirectorySet SyntheticValue

datatype change_class =
    DirectoryAdd_class | DirectoryDelete_class | EnvSet_class | EnvUnset_class
  | FileAdd_class | FileDelete_class | FileChange_class | ServiceStart_class
  | ServiceStop_class | SymbolicLink_class | WorkingDirectorySet_class

fun class_of :: "ConfigurationChange \<Rightarrow> change_class" where
  "class_of (DirectoryAdd p) = DirectoryAdd_class"
| "class_of (DirectoryDelete p) = DirectoryDelete_class"
| "class_of (EnvSet k v) = EnvSet_class"
| "class_of (EnvUnset k) = EnvUnset_class"
| "class_of (FileAdd p) = FileAdd_class"
| "class_of (FileDelete p) = FileDelete_class"
| "class_of (FileChange p cs) = FileChange_class"
| "class_of (ServiceStart n) = ServiceStart_class"
| "class_of (ServiceStop n) = ServiceStop_class"
| "class_of (SymbolicLink p l) = SymbolicLink_class"
| "class_of (WorkingDirectorySet p) = WorkingDirectorySet_class"

fun content_change_eq :: "FileContentChange \<Rightarrow> FileContentChange \<Rightarrow> bool" where
  "content_change_eq (FileContentChange t c) (FileContentChange t' c') = (t = t' \<and> sv_eq c c')"

text \<open>The fields of a change in their declaration order: the synthetic values, and
  the content changes of a \<open>FileChange\<close>.\<close>

fun synthetic_fields :: "ConfigurationChange \<Rightarrow> SyntheticValue list" where
  "synthetic_fields (DirectoryAdd p) = [p]"
| "synthetic_fields (DirectoryDelete p) = [p]"
| "synthetic_fields (EnvSet k v) = [k, v]"
| "synthetic_fields (EnvUnset k) = [k]"
| "synthetic_fields (FileAdd p) = [p]"
| "synthetic_fields (FileDelete p) = [p]"
| "synthetic_fields (FileChange p cs) = [p]"
| "synthetic_fields (ServiceStart n) = [n]"
| "synthetic_fields (ServiceStop n) = [n]"
| "synthetic_fields (SymbolicLink p l) = [p, l]"
| "synthetic_fields (WorkingDirectorySet p) = [p]"

fun content_changes :: "ConfigurationChange \<Rightarrow> FileContentChange list" where
  "content_changes (FileChange p cs) = cs"
| "content_changes c = []"

definition change_eq :: "ConfigurationChange \<Rightarrow> ConfigurationChange \<Rightarrow> bool" where
  "change_eq c c' \<longleftrightarrow>
     class_of c = class_of c'
     \<and> list_all2 sv_eq (synthetic_fields c) (synthetic_fields c')
     \<and> list_all2 content_change_eq (content_changes c) (content_changes c')"

section \<open>The intersection of change sets\<close>

text \<open>
  A set of changes is the list of its elements. \<open>bin_changes\<close> is the loop that fills a
  \<open>defaultdict(set)\<close> keyed by the class of the change; \<open>bin_get\<close> reads it.
\<close>

type_synonym bins = "(change_class \<times> ConfigurationChange list) list"

fun bin_add :: "bins \<Rightarrow> change_class \<Rightarrow> ConfigurationChange \<Rightarrow> bins" where
  "bin_add [] t c = [(t, [c])]"
| "bin_add ((t', cs) # binned) t c =
     (if t' = t then (t', set_add change_eq cs c) # binned
      else (t', cs) # bin_add binned t c)"

definition bin_changes :: "ConfigurationChange list \<Rightarrow> bins" where
  "bin_changes changes = fold (\<lambda>change binned. bin_add binned (class_of change) change) changes []"

definition bin_get :: "bins \<Rightarrow> change_class \<Rightarrow> ConfigurationChange list" where
  "bin_get binned t = (case map_of binned t of None \<Rightarrow> [] | Some cs \<Rightarrow> cs)"

text \<open>\<open>set(source_binned) & set(target_binned)\<close> and the number of pairs over it.\<close>

definition shared_types :: "bins \<Rightarrow> bins \<Rightarrow> change_class list" where
  "shared_types source_binned target_binned =
     filter (\<lambda>t. t \<in> set (map fst target_binned)) (map fst source_binned)"

definition num_pairs :: "bins \<Rightarrow> bins \<Rightarrow> nat" where
  "num_pairs source_binned target_binned =
     sum_list (map (\<lambda>change_type. length (bin_get source_binned change_type)
                                  * length (bin_get target_binned change_type))
                   (shared_types source_binned target_binned))"

text \<open>\<open>source & target\<close>: the changes of the one set that have an equal in the other.\<close>

definition set_intersection ::
    "ConfigurationChange list \<Rightarrow> ConfigurationChange list \<Rightarrow> ConfigurationChange list" where
  "set_intersection source target = filter (set_contains change_eq target) source"

text \<open>
  \<open>ConfigurationChange.change_intersection\<close>. \<open>with_mapping\<close> is \<open>None\<close>, \<open>True\<close> or
  \<open>False\<close>. The computation with mapping (the pairwise \<open>map_to_other\<close> under one-second
  timeouts, in a process pool for many pairs, the compatibility graph and the maximum
  weighted clique of the \<open>networkx\<close> library under a thirty-second timeout) is the
  function \<open>with_mapping_mode\<close> of the binned sets and the shared types, of which nothing
  is assumed.
\<close>

type_synonym intersection =
  "ConfigurationChange list \<times> ConfigurationChange list \<times> mapping"

definition change_intersection ::
    "(bins \<Rightarrow> bins \<Rightarrow> change_class list \<Rightarrow> py_error + intersection)
     \<Rightarrow> ConfigurationChange list \<Rightarrow> ConfigurationChange list \<Rightarrow> bool option
     \<Rightarrow> py_error + intersection" where
  "change_intersection with_mapping_mode source target with_mapping =
     (let source_binned = bin_changes source;
          target_binned = bin_changes target;
          shared = shared_types source_binned target_binned;
          n = num_pairs source_binned target_binned
      in if n = 0 then Inr ([], [], empty_mapping)
         else if with_mapping = Some False \<or> (with_mapping = None \<and> n > 25000000)
         then (let intersection = set_intersection source target
               in Inr (intersection, intersection, empty_mapping))
         else with_mapping_mode source_binned target_binned shared)"

lemma arg_eq_key: "arg_eq a b \<longleftrightarrow> arg_key a = arg_key b"
  by (auto simp: arg_eq_def arg_key_def)

lemma kproj_simps [simp]:
  "kproj [] = []" "kproj ((a, b) # d) = (arg_key a, arg_key b) # kproj d"
  "kproj (d @ d') = kproj d @ kproj d'"
  by (simp_all add: kproj_def)






































section \<open>The mapping search on the fox and dog scenario\<close>

lemma SyntheticValue_init_versions_cong:
  "versions s = versions' s \<Longrightarrow>
   SyntheticValue_init versions s pool = SyntheticValue_init versions' s pool"
  by (simp add: SyntheticValue_init_def candidate_arguments_def)

lemma fox_dog_closed:
  "map_sum id (map mapping_keys)
     (map_to_primitive
       (SyntheticValue_init (\<lambda>s. []) ''+fox+dog+''
          [Argument (PStr ''fox''), Argument (PStr ''dog'')])
       (PStr ''+vulpine+++canine+''))
   = Inr [([(arg_key (Argument (PStr ''fox'')), arg_key (Argument (PStr ''vulpine++''))),
            (arg_key (Argument (PStr ''dog'')), arg_key (Argument (PStr ''canine'')))],
           [(arg_key (Argument (PStr ''vulpine++'')), arg_key (Argument (PStr ''fox''))),
            (arg_key (Argument (PStr ''canine'')), arg_key (Argument (PStr ''dog'')))]),
          ([(arg_key (Argument (PStr ''fox'')), arg_key (Argument (PStr ''vulpine+''))),
            (arg_key (Argument (PStr ''dog'')), arg_key (Argument (PStr ''+canine'')))],
           [(arg_key (Argument (PStr ''vulpine+'')), arg_key (Argument (PStr ''fox''))),
            (arg_key (Argument (PStr ''+canine'')), arg_key (Argument (PStr ''dog'')))]),
          ([(arg_key (Argument (PStr ''fox'')), arg_key (Argument (PStr ''vulpine''))),
            (arg_key (Argument (PStr ''dog'')), arg_key (Argument (PStr ''++canine'')))],
           [(arg_key (Argument (PStr ''vulpine'')), arg_key (Argument (PStr ''fox''))),
            (arg_key (Argument (PStr ''++canine'')), arg_key (Argument (PStr ''dog'')))])]"
  by code_simp

lemma dog_fox_closed:
  "map_sum id (map mapping_keys)
     (map_to_primitive
       (SyntheticValue_init (\<lambda>s. []) ''+fox+dog+''
          [Argument (PStr ''dog''), Argument (PStr ''fox'')])
       (PStr ''+vulpine+++canine+''))
   = Inr [([(arg_key (Argument (PStr ''fox'')), arg_key (Argument (PStr ''vulpine++''))),
            (arg_key (Argument (PStr ''dog'')), arg_key (Argument (PStr ''canine'')))],
           [(arg_key (Argument (PStr ''vulpine++'')), arg_key (Argument (PStr ''fox''))),
            (arg_key (Argument (PStr ''canine'')), arg_key (Argument (PStr ''dog'')))]),
          ([(arg_key (Argument (PStr ''fox'')), arg_key (Argument (PStr ''vulpine+''))),
            (arg_key (Argument (PStr ''dog'')), arg_key (Argument (PStr ''+canine'')))],
           [(arg_key (Argument (PStr ''vulpine+'')), arg_key (Argument (PStr ''fox''))),
            (arg_key (Argument (PStr ''+canine'')), arg_key (Argument (PStr ''dog'')))]),
          ([(arg_key (Argument (PStr ''fox'')), arg_key (Argument (PStr ''vulpine''))),
            (arg_key (Argument (PStr ''dog'')), arg_key (Argument (PStr ''++canine'')))],
           [(arg_key (Argument (PStr ''vulpine'')), arg_key (Argument (PStr ''fox''))),
            (arg_key (Argument (PStr ''++canine'')), arg_key (Argument (PStr ''dog'')))])]"
  by code_simp

text \<open>
  Claim C3. The synthetic value built from \<open>"+fox+dog+"\<close> and the arguments \<open>fox\<close> and
  \<open>dog\<close> (in either iteration order of the pool; the version pattern finds nothing in a
  string without a digit) maps to \<open>"+vulpine+++canine+"\<close> with exactly three mappings:
  \<open>fox\<close> takes \<open>vulpine++\<close>, \<open>vulpine+\<close> or \<open>vulpine\<close>, and \<open>dog\<close> the rest. The
  mappings are given by the items of their two dictionaries, in the order in which the
  search adds them to the result set.
\<close>

theorem map_to_primitive_fox_dog:
  assumes "versions ''+fox+dog+'' = []"
    and "pool = [Argument (PStr ''fox''), Argument (PStr ''dog'')]
         \<or> pool = [Argument (PStr ''dog''), Argument (PStr ''fox'')]"
  shows "map_sum id (map mapping_keys)
     (map_to_primitive (SyntheticValue_init versions ''+fox+dog+'' pool)
        (PStr ''+vulpine+++canine+''))
   = Inr [([(arg_key (Argument (PStr ''fox'')), arg_key (Argument (PStr ''vulpine++''))),
            (arg_key (Argument (PStr ''dog'')), arg_key (Argument (PStr ''canine'')))],
           [(arg_key (Argument (PStr ''vulpine++'')), arg_key (Argument (PStr ''fox''))),
            (arg_key (Argument (PStr ''canine'')), arg_key (Argument (PStr ''dog'')))]),
          ([(arg_key (Argument (PStr ''fox'')), arg_key (Argument (PStr ''vulpine+''))),
            (arg_key (Argument (PStr ''dog'')), arg_key (Argument (PStr ''+canine'')))],
           [(arg_key (Argument (PStr ''vulpine+'')), arg_key (Argument (PStr ''fox''))),
            (arg_key (Argument (PStr ''+canine'')), arg_key (Argument (PStr ''dog'')))]),
          ([(arg_key (Argument (PStr ''fox'')), arg_key (Argument (PStr ''vulpine''))),
            (arg_key (Argument (PStr ''dog'')), arg_key (Argument (PStr ''++canine'')))],
           [(arg_key (Argument (PStr ''vulpine'')), arg_key (Argument (PStr ''fox''))),
            (arg_key (Argument (PStr ''++canine'')), arg_key (Argument (PStr ''dog'')))])]"
proof -
  have eq: "SyntheticValue_init versions ''+fox+dog+'' pool
            = SyntheticValue_init (\<lambda>s. []) ''+fox+dog+'' pool"
    by (rule SyntheticValue_init_versions_cong) (simp add: assms(1))
  from assms(2) show ?thesis
  proof
    assume "pool = [Argument (PStr ''fox''), Argument (PStr ''dog'')]"
    then show ?thesis unfolding eq by (simp only: fox_dog_closed)
  next
    assume "pool = [Argument (PStr ''dog''), Argument (PStr ''fox'')]"
    then show ?thesis unfolding eq by (simp only: dog_fox_closed)
  qed
qed

theorem map_to_primitive_fox_dog_witness:
  "map_sum id (map mapping_keys)
     (map_to_primitive
        (SyntheticValue_init (\<lambda>s. []) ''+fox+dog+''
           [Argument (PStr ''fox''), Argument (PStr ''dog'')])
        (PStr ''+vulpine+++canine+''))
   = Inr [([(arg_key (Argument (PStr ''fox'')), arg_key (Argument (PStr ''vulpine++''))),
            (arg_key (Argument (PStr ''dog'')), arg_key (Argument (PStr ''canine'')))],
           [(arg_key (Argument (PStr ''vulpine++'')), arg_key (Argument (PStr ''fox''))),
            (arg_key (Argument (PStr ''canine'')), arg_key (Argument (PStr ''dog'')))]),
          ([(arg_key (Argument (PStr ''fox'')), arg_key (Argument (PStr ''vulpine+''))),
            (arg_key (Argument (PStr ''dog'')), arg_key (Argument (PStr ''+canine'')))],
           [(arg_key (Argument (PStr ''vulpine+'')), arg_key (Argument (PStr ''fox''))),
            (arg_key (Argument (PStr ''+canine'')), arg_key (Argument (PStr ''dog'')))]),
          ([(arg_key (Argument (PStr ''fox'')), arg_key (Argument (PStr ''vulpine''))),
            (arg_key (Argument (PStr ''dog'')), arg_key (Argument (PStr ''++canine'')))],
           [(arg_key (Argument (PStr ''vulpine'')), arg_key (Argument (PStr ''fox''))),
            (arg_key (Argument (PStr ''++canine'')), arg_key (Argument (PStr ''dog'')))])]"
  by (rule map_to_primitive_fox_dog[of "\<lambda>s. []"]) simp_all

section \<open>The invariants of the constructor of synthetic values\<close>

lemma partition_str_concat:
  "partition_str sep s = (bef, m, aft) \<Longrightarrow> bef @ m @ aft = s"
proof (induction s arbitrary: bef)
  case Nil
  then show ?case by simp
next
  case (Cons c cs)
  show ?case
  proof (cases "startswith (c # cs) sep")
    case True
    have "startswith t p \<Longrightarrow> p @ drop (length p) t = t" for t p :: string
      by (induction t p rule: startswith.induct) auto
    with True Cons.prems show ?thesis by auto
  next
    case False
    with Cons.prems obtain b where b: "partition_str sep cs = (b, m, aft)" "bef = c # b"
      by (auto split: prod.splits)
    from Cons.IH[OF b(1)] b(2) show ?thesis by simp
  qed
qed

lemma partition_str_sep:
  "partition_str sep s = (bef, m, aft) \<Longrightarrow> m = sep \<or> (m = [] \<and> aft = [])"
proof (induction s arbitrary: bef)
  case Nil
  then show ?case by simp
next
  case (Cons c cs)
  show ?case
  proof (cases "startswith (c # cs) sep")
    case True
    with Cons.prems show ?thesis by auto
  next
    case False
    with Cons.prems obtain b where b: "partition_str sep cs = (b, m, aft)"
      by (auto split: prod.splits)
    from Cons.IH[OF b] show ?thesis .
  qed
qed

lemma split_literal_concat:
  "arg_value a \<noteq> [] \<Longrightarrow> concat (map part_str (split_literal a s)) = s"
proof (induction a s rule: split_literal.induct)
  case (1 a s)
  note ne = "1.prems"
  obtain bef m aft where p: "partition_str (arg_value a) s = (bef, m, aft)"
    by (cases "partition_str (arg_value a) s")
  show ?case
  proof (cases "m = []")
    case True
    with partition_str_sep[OF p] ne have "aft = []" by auto
    with True partition_str_concat[OF p] p show ?thesis
      by (subst split_literal.simps) auto
  next
    case False
    with partition_str_sep[OF p] have m: "m = arg_value a" by simp
    from "1.IH"[OF p[symmetric] refl False ne] partition_str_concat[OF p] p False m
    show ?thesis by (subst split_literal.simps) auto
  qed
qed

lemma split_part_concat:
  "arg_value a \<noteq> [] \<Longrightarrow> concat (map part_str (split_part a p)) = part_str p"
  by (cases p) (simp_all add: split_literal_concat)

lemma filter_truthy_concat:
  "concat (map part_str (filter truthy ps)) = concat (map part_str ps)"
proof (induction ps)
  case Nil
  show ?case by simp
next
  case (Cons p ps)
  then show ?case by (cases p) auto
qed

lemma punch_concat: "concat (map part_str (punch a ps)) = concat (map part_str ps)"
proof (cases "arg_value a = []")
  case True
  then show ?thesis by (simp add: punch_def)
next
  case False
  then have "concat (map part_str (concat (map (split_part a) ps))) = concat (map part_str ps)"
    by (induction ps) (simp_all add: split_part_concat)
  with False show ?thesis by (simp add: punch_def filter_truthy_concat)
qed

lemma decompose_concat: "concat (map part_str (decompose ov arguments)) = ov"
proof -
  have "concat (map part_str (fold punch arguments ps)) = concat (map part_str ps)" for ps
    by (induction arguments arbitrary: ps) (simp_all add: punch_concat)
  then show ?thesis by (simp add: decompose_def)
qed

lemma nal_tail: "no_adjacent_literals (p # ps) \<Longrightarrow> no_adjacent_literals ps"
  by (cases ps) simp_all

lemma nal_cons:
  "no_adjacent_literals (p # ps) \<longleftrightarrow>
     no_adjacent_literals ps \<and> (ps = [] \<or> \<not> (is_lit p \<and> is_lit (hd ps)))"
  by (cases ps) auto

lemma nal_append:
  "no_adjacent_literals (xs @ ys) \<longleftrightarrow>
     no_adjacent_literals xs \<and> no_adjacent_literals ys
     \<and> (xs = [] \<or> ys = [] \<or> \<not> (is_lit (last xs) \<and> is_lit (hd ys)))"
proof (induction xs)
  case Nil
  show ?case by simp
next
  case (Cons x xs)
  show ?case
  proof (cases xs)
    case Nil
    then show ?thesis by (simp add: nal_cons)
  next
    case (Cons z zs)
    with Cons.IH show ?thesis by (auto simp: nal_cons)
  qed
qed

lemma split_literal_shape:
  "no_adjacent_literals (split_literal a s) \<and> split_literal a s \<noteq> []
   \<and> is_lit (hd (split_literal a s)) \<and> is_lit (last (split_literal a s))"
proof (induction a s rule: split_literal.induct)
  case (1 a s)
  obtain bef m aft where p: "partition_str (arg_value a) s = (bef, m, aft)"
    by (cases "partition_str (arg_value a) s")
  show ?case
  proof (cases "m = []")
    case True
    with p show ?thesis by (subst (1 2 3 4) split_literal.simps) simp
  next
    case False
    from "1.IH"[OF p[symmetric] refl False] p False
    show ?thesis by (subst (1 2 3 4) split_literal.simps) (simp add: nal_cons)
  qed
qed

lemma split_part_shape:
  "no_adjacent_literals (split_part a p) \<and> split_part a p \<noteq> []
   \<and> is_lit (hd (split_part a p)) = is_lit p \<and> is_lit (last (split_part a p)) = is_lit p"
  by (cases p) (simp_all add: split_literal_shape)

lemma concat_split_shape:
  "no_adjacent_literals ps \<Longrightarrow>
   no_adjacent_literals (concat (map (split_part a) ps))
   \<and> (ps \<noteq> [] \<longrightarrow> concat (map (split_part a) ps) \<noteq> []
        \<and> is_lit (hd (concat (map (split_part a) ps))) = is_lit (hd ps))"
proof (induction ps)
  case Nil
  show ?case by simp
next
  case (Cons p ps)
  from Cons.prems have t: "no_adjacent_literals ps" by (rule nal_tail)
  note ih = Cons.IH[OF t]
  note sh = split_part_shape[of a p]
  show ?case
  proof (cases "ps = []")
    case True
    with sh show ?thesis by simp
  next
    case False
    with Cons.prems have b: "\<not> (is_lit p \<and> is_lit (hd ps))" by (simp add: nal_cons)
    from False ih sh b show ?thesis by (simp add: nal_append)
  qed
qed

lemma nal_filter:
  assumes "\<And>x. \<not> P x \<Longrightarrow> is_lit x"
  shows "no_adjacent_literals xs \<Longrightarrow> no_adjacent_literals (filter P xs)
         \<and> (\<forall>x. no_adjacent_literals (x # xs) \<longrightarrow> no_adjacent_literals (x # filter P xs))"
proof (induction xs)
  case Nil
  show ?case by simp
next
  case (Cons z zs)
  from Cons.prems have t: "no_adjacent_literals zs" by (rule nal_tail)
  note ih = Cons.IH[OF t]
  show ?case
  proof (cases "P z")
    case True
    with ih Cons.prems show ?thesis by (auto simp: nal_cons)
  next
    case False
    then have lz: "is_lit z" by (rule assms)
    have "no_adjacent_literals (x # filter P zs)" if "no_adjacent_literals (x # z # zs)" for x
    proof -
      from that lz have nx: "\<not> is_lit x" by simp
      from ih have "no_adjacent_literals (filter P zs)" by simp
      with nx show ?thesis by (simp add: nal_cons)
    qed
    with False ih show ?thesis by simp
  qed
qed

lemma punch_nal: "no_adjacent_literals ps \<Longrightarrow> no_adjacent_literals (punch a ps)"
proof -
  assume a: "no_adjacent_literals ps"
  have "\<not> truthy x \<Longrightarrow> is_lit x" for x by (cases x) simp_all
  from nal_filter[of truthy, OF this] concat_split_shape[OF a, of a] a
  show ?thesis by (simp add: punch_def)
qed

lemma decompose_nal: "no_adjacent_literals (decompose ov arguments)"
proof -
  have "no_adjacent_literals ps \<Longrightarrow> no_adjacent_literals (fold punch arguments ps)" for ps
    by (induction arguments arbitrary: ps) (simp_all add: punch_nal)
  then show ?thesis by (simp add: decompose_def)
qed

lemma set_add_keys:
  "arg_key ` set (set_add arg_eq acc a) = insert (arg_key a) (arg_key ` set acc)"
  by (auto simp: set_add_def set_contains_def list_ex_iff arg_eq_key intro: rev_image_eqI)

lemma used_arguments_keys:
  "arg_key ` set (used_arguments ps) = {arg_key a |a. ArgPart a \<in> set ps}"
proof -
  have "arg_key ` set (fold (\<lambda>p s. case p of ArgPart a \<Rightarrow> set_add arg_eq s a | Lit l \<Rightarrow> s) ps acc)
        = arg_key ` set acc \<union> {arg_key a |a. ArgPart a \<in> set ps}" for acc
  proof (induction ps arbitrary: acc)
    case Nil
    show ?case by simp
  next
    case (Cons p ps)
    show ?case by (cases p) (auto simp: Cons.IH set_add_keys)
  qed
  from this[of "[]"] show ?thesis by (simp add: used_arguments_def)
qed

text \<open>
  Claim C4. Every synthetic value that the constructor builds, from any value, any
  argument pool and whatever version numbers the pattern finds, keeps its original value,
  has parts whose string forms concatenate to it, has no two adjacent literal parts, and
  has as its arguments exactly the arguments that occur in its parts (up to \<open>==\<close>): a
  pool argument that occurs in no part is not among them.
\<close>

theorem SyntheticValue_init_invariants:
  "sv_original_value (SyntheticValue_init versions ov pool) = ov
   \<and> concat (map part_str (sv_parts (SyntheticValue_init versions ov pool))) = ov
   \<and> no_adjacent_literals (sv_parts (SyntheticValue_init versions ov pool))
   \<and> arg_key ` set (sv_arguments (SyntheticValue_init versions ov pool))
       = {arg_key a |a. ArgPart a \<in> set (sv_parts (SyntheticValue_init versions ov pool))}"
  by (simp add: SyntheticValue_init_def Let_def decompose_concat decompose_nal
      used_arguments_keys)

lemma SyntheticValue_init_digits:
  "map part_key (sv_parts (SyntheticValue_init (\<lambda>s. []) ''0 1 2 3 4 5 6 7 8 9''
      [Argument (PStr ''3''), Argument (PStr ''5''), Argument (PStr ''7''),
       Argument (PStr ''absent'')]))
   = [Inl ''0 1 2 '', Inr (arg_key (Argument (PStr ''3''))), Inl '' 4 '',
      Inr (arg_key (Argument (PStr ''5''))), Inl '' 6 '',
      Inr (arg_key (Argument (PStr ''7''))), Inl '' 8 9'']
   \<and> map arg_key (sv_arguments (SyntheticValue_init (\<lambda>s. []) ''0 1 2 3 4 5 6 7 8 9''
      [Argument (PStr ''3''), Argument (PStr ''5''), Argument (PStr ''7''),
       Argument (PStr ''absent'')]))
   = [arg_key (Argument (PStr ''3'')), arg_key (Argument (PStr ''5'')),
      arg_key (Argument (PStr ''7''))]"
  by code_simp

text \<open>The witness is the decomposition of the specification's first scenario, with one
  more pool argument that occurs nowhere and is discarded.\<close>

theorem SyntheticValue_init_invariants_witness:
  "concat (map part_str (sv_parts (SyntheticValue_init (\<lambda>s. []) ''0 1 2 3 4 5 6 7 8 9''
      [Argument (PStr ''3''), Argument (PStr ''5''), Argument (PStr ''7''),
       Argument (PStr ''absent'')]))) = ''0 1 2 3 4 5 6 7 8 9''
   \<and> no_adjacent_literals (sv_parts (SyntheticValue_init (\<lambda>s. []) ''0 1 2 3 4 5 6 7 8 9''
      [Argument (PStr ''3''), Argument (PStr ''5''), Argument (PStr ''7''),
       Argument (PStr ''absent'')]))
   \<and> map part_key (sv_parts (SyntheticValue_init (\<lambda>s. []) ''0 1 2 3 4 5 6 7 8 9''
      [Argument (PStr ''3''), Argument (PStr ''5''), Argument (PStr ''7''),
       Argument (PStr ''absent'')]))
   = [Inl ''0 1 2 '', Inr (arg_key (Argument (PStr ''3''))), Inl '' 4 '',
      Inr (arg_key (Argument (PStr ''5''))), Inl '' 6 '',
      Inr (arg_key (Argument (PStr ''7''))), Inl '' 8 9'']
   \<and> map arg_key (sv_arguments (SyntheticValue_init (\<lambda>s. []) ''0 1 2 3 4 5 6 7 8 9''
      [Argument (PStr ''3''), Argument (PStr ''5''), Argument (PStr ''7''),
       Argument (PStr ''absent'')]))
   = [arg_key (Argument (PStr ''3'')), arg_key (Argument (PStr ''5'')),
      arg_key (Argument (PStr ''7''))]"
  using SyntheticValue_init_invariants[of "\<lambda>s. []" "''0 1 2 3 4 5 6 7 8 9''"
      "[Argument (PStr ''3''), Argument (PStr ''5''), Argument (PStr ''7''),
        Argument (PStr ''absent'')]"]
    SyntheticValue_init_digits
  by blast

end
